theory Spec2Isabelle
  imports Complex_Main "HOL-Library.Char_ord" "HOL-Library.List_Lexorder"
begin

section \<open>The feed consumer (script.js)\<close>

text \<open>
  The widget keeps three module-level variables: \<open>raw\<close>, \<open>filtered\<close> and \<open>page\<close>.
  \<open>renderPage\<close> reads \<open>filtered\<close> and \<open>page\<close>, writes \<open>page\<close> back and fills
  the DOM. The DOM writes are returned as fields of a view: the slice of items shown, the
  three numbers of the page info text and the two button flags.
\<close>

definition PAGE_SIZE :: nat where
  "PAGE_SIZE = 8"

record widget_item =
  w_title :: string
  w_description :: string
  w_link :: string
  w_date :: int

record widget =
  filtered :: "widget_item list"
  page :: int

record view =
  shown :: "widget_item list"
  info_from :: int
  info_to :: int
  info_total :: int
  prev_disabled :: bool
  next_disabled :: bool

text \<open>
  \<open>const pages = Math.max(1, Math.ceil(total / PAGE_SIZE))\<close>: the quotient is a
  fraction, rounded up.
\<close>

definition page_count :: "nat \<Rightarrow> int" where
  "page_count tot = max 1 \<lceil>real tot / real PAGE_SIZE\<rceil>"

text \<open>
  \<open>filtered.slice(start, start + PAGE_SIZE)\<close> with \<open>0 \<le> start\<close>: the elements from
  index \<open>start\<close> on, at most \<open>PAGE_SIZE\<close> of them; fewer, or none, past the end.
\<close>

definition renderPage :: "widget \<Rightarrow> widget \<times> view" where
  "renderPage w =
     (let tot = length (filtered w);
          pages = page_count tot;
          p = min (max 1 (page w)) pages;
          start = (p - 1) * int PAGE_SIZE;
          slice = take PAGE_SIZE (drop (nat start) (filtered w))
      in (w\<lparr>page := p\<rparr>,
          \<lparr>shown = slice,
           info_from = (if tot \<noteq> 0 then start + 1 else 0),
           info_to = min (start + int PAGE_SIZE) (int tot),
           info_total = int tot,
           prev_disabled = (p \<le> 1),
           next_disabled = (p \<ge> pages)\<rparr>))"

text \<open>
  \<open>s.replace(/[&<>"']/g, (c) => ({...}[c]))\<close>: the string is scanned from the left;
  a character of the class is replaced by what the callback returns, any other character
  is copied. The callback looks the character up in an object literal; a lookup that
  found nothing would give \<open>undefined\<close>, which \<open>replace\<close> writes out as the text
  \<open>undefined\<close>.
\<close>

definition in_class :: "char \<Rightarrow> bool" where
  "in_class c = (c = CHR ''&'' \<or> c = CHR ''<'' \<or> c = CHR ''>'' \<or> c = CHR 0x22 \<or> c = CHR 0x27)"

definition entity_table :: "char \<Rightarrow> string option" where
  "entity_table =
     [CHR ''&'' \<mapsto> ''&amp;'', CHR ''<'' \<mapsto> ''&lt;'', CHR ''>'' \<mapsto> ''&gt;'',
      CHR 0x22 \<mapsto> ''&quot;'', CHR 0x27 \<mapsto> ''&#039;'']"

definition replacement :: "char \<Rightarrow> string" where
  "replacement c = (case entity_table c of Some e \<Rightarrow> e | None \<Rightarrow> ''undefined'')"

fun escapeHtml :: "string \<Rightarrow> string" where
  "escapeHtml [] = []"
| "escapeHtml (c # s) =
     (if in_class c then replacement c @ escapeHtml s else c # escapeHtml s)"

text \<open>
  The two escaped fragments of a card:
  \<open>escapeHtml(it.title || "Untitled disclosure")\<close> and \<open>escapeHtml(it.description || "")\<close>.
\<close>

definition card_title :: "widget_item \<Rightarrow> string" where
  "card_title it = escapeHtml (if w_title it \<noteq> [] then w_title it else ''Untitled disclosure'')"

definition card_description :: "widget_item \<Rightarrow> string" where
  "card_description it = escapeHtml (if w_description it \<noteq> [] then w_description it else [])"

text \<open>The five entities, and the markup characters that must not survive.\<close>

definition entities :: "string list" where
  "entities = [''&amp;'', ''&lt;'', ''&gt;'', ''&quot;'', ''&#039;'']"

definition markup :: "char \<Rightarrow> bool" where
  "markup c = (c = CHR ''<'' \<or> c = CHR ''>'' \<or> c = CHR 0x22 \<or> c = CHR 0x27)"

text \<open>The entity that a character of the input stands for in the output, or the character itself.\<close>

definition escaped :: "char \<Rightarrow> string" where
  "escaped c =
     (if c = CHR ''&'' then ''&amp;'' else if c = CHR ''<'' then ''&lt;''
      else if c = CHR ''>'' then ''&gt;'' else if c = CHR 0x22 then ''&quot;''
      else if c = CHR 0x27 then ''&#039;'' else [c])"

text \<open>An entity starts at position \<open>i\<close> of \<open>s\<close>.\<close>

definition entity_at :: "string \<Rightarrow> nat \<Rightarrow> bool" where
  "entity_at s i = list_ex (\<lambda>e. take (length e) (drop i s) = e) entities"

section \<open>The values and the runtime of the pipeline\<close>

text \<open>
  The fields of a record are text, \<open>null\<close> or absent (\<open>undefined\<close>), as the pipeline
  makes them: text from the page and from template strings, \<open>null\<close> from
  \<open>dateText || null\<close> and from the date normalizer, and whatever a position of the filing
  arrays holds, \<open>undefined\<close> past their end.
\<close>

datatype jsv = Undefined | Null | Str string

text \<open>Truthiness, as \<open>!x\<close>, \<open>x && y\<close> and \<open>x ? a : b\<close> test it.\<close>

fun truthy :: "jsv \<Rightarrow> bool" where
  "truthy (Str s) = (s \<noteq> [])"
| "truthy Undefined = False"
| "truthy Null = False"

text \<open>The text a value has inside a template string, and under \<open>String(x)\<close>.\<close>

fun to_string :: "jsv \<Rightarrow> string" where
  "to_string (Str s) = s"
| "to_string Undefined = ''undefined''"
| "to_string Null = ''null''"

text \<open>Exceptions are values: the kind of the exception with its message.\<close>

datatype error = Error string | TypeError string | RangeError string

fun message :: "error \<Rightarrow> string" where
  "message (Error m) = m"
| "message (TypeError m) = m"
| "message (RangeError m) = m"

text \<open>
  Three operations of the JavaScript runtime are fixed by the language only on part of
  their inputs, or involve its number type. They are taken as parameters, and every
  theorem holds for all values of them:
  \<^item> \<open>string_sign\<close>: the sign of the number a string converts to, which \<open><\<close> needs
    when it compares \<open>null\<close> with a string;
  \<^item> \<open>parse_other\<close>: the time value of \<open>new Date(s)\<close>, in milliseconds, or \<open>None\<close>
    for an invalid date, for every \<open>s\<close> that is not a calendar date written
    \<open>YYYY-MM-DD\<close> (for those the language fixes the result, modelled below);
  \<open>Date\<close> falls back to implementation-specific parsing there;
  \<^item> \<open>number_other\<close>: the text of \<open>Number(s)\<close> for every \<open>s\<close> that is not a string
    of one to fifteen decimal digits.
\<close>

datatype num_sign = NaN | Negative | Zero | Positive

record runtime =
  string_sign :: "string \<Rightarrow> num_sign"
  parse_other :: "string \<Rightarrow> int option"
  number_other :: "string \<Rightarrow> string"

text \<open>
  \<open>x < y\<close> on two values: two strings are compared by their code units, lexicographically.
  Otherwise both are converted to numbers: \<open>undefined\<close> is \<open>NaN\<close>, and every comparison
  with \<open>NaN\<close> is false; \<open>null\<close> is 0.
\<close>

fun js_lt :: "runtime \<Rightarrow> jsv \<Rightarrow> jsv \<Rightarrow> bool" where
  "js_lt rt (Str a) (Str b) = (a < b)"
| "js_lt rt Null (Str b) = (string_sign rt b = Positive)"
| "js_lt rt (Str a) Null = (string_sign rt a = Negative)"
| "js_lt rt Null Null = False"
| "js_lt rt Undefined y = False"
| "js_lt rt x Undefined = False"

subsection \<open>Decimal digits\<close>

definition is_digit :: "char \<Rightarrow> bool" where
  "is_digit c = (c \<in> set ''0123456789'')"

definition digit_val :: "char \<Rightarrow> nat" where
  "digit_val c = of_char c - 48"

definition digit_char :: "nat \<Rightarrow> char" where
  "digit_char k = ''0123456789'' ! k"

text \<open>A number in decimal, padded with zeros on the left to a fixed width.\<close>

fun pad :: "nat \<Rightarrow> nat \<Rightarrow> string" where
  "pad 0 v = []"
| "pad (Suc w) v = pad w (v div 10) @ [digit_char (v mod 10)]"

text \<open>
  \<open>Number(s)\<close> inside a template string: a string of decimal digits is the number it
  writes, printed without leading zeros (exactly, up to fifteen digits).
\<close>

definition strip_zeros :: "string \<Rightarrow> string" where
  "strip_zeros s = (case dropWhile (\<lambda>c. c = CHR ''0'') s of [] \<Rightarrow> ''0'' | t \<Rightarrow> t)"

definition Number_text :: "runtime \<Rightarrow> string \<Rightarrow> string" where
  "Number_text rt s =
     (if s \<noteq> [] \<and> list_all is_digit s \<and> length s \<le> 15 then strip_zeros s
      else number_other rt s)"

text \<open>\<open>s.padStart(n, '0')\<close>.\<close>

definition padStart :: "nat \<Rightarrow> string \<Rightarrow> string" where
  "padStart n s = replicate (n - length s) (CHR ''0'') @ s"

subsection \<open>The Date of the runtime\<close>

text \<open>
  A \<open>Date\<close> holds a time value, in milliseconds since 1970-01-01 UTC, or is invalid.
  The functions below are those of the language definition (day number and time within
  day, year number, month number, date number, MakeDay, MakeDate, TimeClip), on integers.
\<close>

datatype date_obj = Invalid | Time int

definition msPerDay :: int where
  "msPerDay = 86400000"

definition Day :: "int \<Rightarrow> int" where
  "Day t = t div msPerDay"

definition TimeWithinDay :: "int \<Rightarrow> int" where
  "TimeWithinDay t = t mod msPerDay"

definition DaysInYear :: "int \<Rightarrow> int" where
  "DaysInYear y =
     (if y mod 4 \<noteq> 0 then 365 else if y mod 100 \<noteq> 0 then 366
      else if y mod 400 \<noteq> 0 then 365 else 366)"

definition DayFromYear :: "int \<Rightarrow> int" where
  "DayFromYear y =
     365 * (y - 1970) + (y - 1969) div 4 - (y - 1901) div 100 + (y - 1601) div 400"

lemma div_succ:
  fixes a k :: int
  assumes "0 < k"
  shows "(a + 1) div k = a div k + (if (a + 1) mod k = 0 then 1 else 0)"
proof (cases "a mod k = k - 1")
  case True
  have "a = k * (a div k) + (k - 1)"
    using mult_div_mod_eq [of k a] unfolding True by simp
  then have eq: "a + 1 = k * (a div k + 1) + 0"
    by (simp add: algebra_simps)
  have "(a + 1) div k = a div k + 1"
    using eq _ assms by (rule int_div_pos_eq) simp
  moreover have "(a + 1) mod k = 0"
    using eq _ assms by (rule int_mod_pos_eq) simp
  ultimately show ?thesis by simp
next
  case False
  have "a mod k < k" "0 \<le> a mod k"
    using assms by simp_all
  with False have r: "0 \<le> a mod k + 1" "a mod k + 1 < k"
    by linarith+
  have eq: "a + 1 = k * (a div k) + (a mod k + 1)"
    using mult_div_mod_eq [of k a] by simp
  have "(a + 1) div k = a div k"
    by (rule int_div_pos_eq [OF eq r])
  moreover have "(a + 1) mod k = a mod k + 1"
    by (rule int_mod_pos_eq [OF eq r])
  ultimately show ?thesis using \<open>0 \<le> a mod k\<close> by simp
qed

lemma shift4: "(y - 1968) mod 4 = y mod (4::int)"
  using mod_mult_self1 [of y "- 492" 4] by simp

lemma shift100: "(y - 1900) mod 100 = y mod (100::int)"
  using mod_mult_self1 [of y "- 19" 100] by simp

lemma shift400: "(y - 1600) mod 400 = y mod (400::int)"
  using mod_mult_self1 [of y "- 4" 400] by simp

lemma mod100_4: "y mod 100 = 0 \<Longrightarrow> y mod 4 = (0::int)"
proof -
  assume "y mod 100 = 0"
  then obtain k where "y = 100 * k" by (auto simp: mod_eq_0_iff_dvd elim: dvdE)
  then have "y = 4 * (25 * k)" by simp
  then show ?thesis by (simp only: mod_mult_self1_is_0)
qed

lemma mod400_100: "y mod 400 = 0 \<Longrightarrow> y mod 100 = (0::int)"
proof -
  assume "y mod 400 = 0"
  then obtain k where "y = 400 * k" by (auto simp: mod_eq_0_iff_dvd elim: dvdE)
  then have "y = 100 * (4 * k)" by simp
  then show ?thesis by (simp only: mod_mult_self1_is_0)
qed

lemma DayFromYear_step: "DayFromYear (y + 1) = DayFromYear y + DaysInYear y"
proof -
  have a: "(y + 1 - 1969) div 4 = (y - 1969) div 4 + (if y mod 4 = 0 then 1 else 0)"
    using div_succ [of 4 "y - 1969"] shift4 [of y] by (simp add: algebra_simps)
  have b: "(y + 1 - 1901) div 100 = (y - 1901) div 100 + (if y mod 100 = 0 then 1 else 0)"
    using div_succ [of 100 "y - 1901"] shift100 [of y] by (simp add: algebra_simps)
  have c: "(y + 1 - 1601) div 400 = (y - 1601) div 400 + (if y mod 400 = 0 then 1 else 0)"
    using div_succ [of 400 "y - 1601"] shift400 [of y] by (simp add: algebra_simps)
  show ?thesis
    unfolding DayFromYear_def DaysInYear_def a b c
    using mod100_4 [of y] mod400_100 [of y] by (simp split: if_splits)
qed

lemma DayFromYear_pred_less: "DayFromYear (y - 1) < DayFromYear y"
  using DayFromYear_step [of "y - 1"] by (simp add: DaysInYear_def split: if_splits)

text \<open>
  The year of a day is the largest \<open>y\<close> with \<open>DayFromYear y \<le> day\<close>. It is found
  by stepping down from a year that is not before it.
\<close>

function year_down :: "int \<Rightarrow> int \<Rightarrow> int" where
  "year_down d y = (if d < DayFromYear y then year_down d (y - 1) else y)"
  by pat_completeness auto
termination
proof (relation "measure (\<lambda>(d, y). nat (DayFromYear y - d))")
  show "wf (measure (\<lambda>(d, y). nat (DayFromYear y - d)))" by simp
next
  fix d y :: int
  assume "d < DayFromYear y"
  then show "((d, y - 1), (d, y)) \<in> measure (\<lambda>(d, y). nat (DayFromYear y - d))"
    using DayFromYear_pred_less [of y] by simp
qed

declare year_down.simps [simp del]

definition YearFromDay :: "int \<Rightarrow> int" where
  "YearFromDay d = year_down d (if d < 0 then 1970 else 1970 + d div 365)"

definition YearFromTime :: "int \<Rightarrow> int" where
  "YearFromTime t = YearFromDay (Day t)"

definition leap_year :: "int \<Rightarrow> int" where
  "leap_year y = (if DaysInYear y = 366 then 1 else 0)"

definition InLeapYear :: "int \<Rightarrow> int" where
  "InLeapYear t = leap_year (YearFromTime t)"

definition DayWithinYear :: "int \<Rightarrow> int" where
  "DayWithinYear t = Day t - DayFromYear (YearFromTime t)"

text \<open>
  The month (0 to 11) and the day of the month (1 to 31) of the day \<open>d\<close> within
  its year (0 to 365), in a leap year (\<open>l = 1\<close>) or not (\<open>l = 0\<close>).
\<close>

definition month_of_day :: "int \<Rightarrow> int \<Rightarrow> int" where
  "month_of_day l d =
     (if d < 31 then 0 else if d < 59 + l then 1 else if d < 90 + l then 2
      else if d < 120 + l then 3 else if d < 151 + l then 4 else if d < 181 + l then 5
      else if d < 212 + l then 6 else if d < 243 + l then 7 else if d < 273 + l then 8
      else if d < 304 + l then 9 else if d < 334 + l then 10 else 11)"

definition date_of_day :: "int \<Rightarrow> int \<Rightarrow> int \<Rightarrow> int" where
  "date_of_day l m d =
     (if m = 0 then d + 1 else if m = 1 then d - 30 else if m = 2 then d - 58 - l
      else if m = 3 then d - 89 - l else if m = 4 then d - 119 - l
      else if m = 5 then d - 150 - l else if m = 6 then d - 180 - l
      else if m = 7 then d - 211 - l else if m = 8 then d - 242 - l
      else if m = 9 then d - 272 - l else if m = 10 then d - 303 - l else d - 333 - l)"

definition MonthFromTime :: "int \<Rightarrow> int" where
  "MonthFromTime t = month_of_day (InLeapYear t) (DayWithinYear t)"

definition DateFromTime :: "int \<Rightarrow> int" where
  "DateFromTime t = date_of_day (InLeapYear t) (MonthFromTime t) (DayWithinYear t)"

definition HourFromTime :: "int \<Rightarrow> int" where
  "HourFromTime t = (t div 3600000) mod 24"

definition MinFromTime :: "int \<Rightarrow> int" where
  "MinFromTime t = (t div 60000) mod 60"

definition SecFromTime :: "int \<Rightarrow> int" where
  "SecFromTime t = (t div 1000) mod 60"

definition msFromTime :: "int \<Rightarrow> int" where
  "msFromTime t = t mod 1000"

text \<open>
  The day within the year on which month \<open>m\<close> (0 to 11) starts, and MakeDay for a month
  in that range: the day number of the first of the month, plus the date, minus one.
\<close>

definition month_start :: "int \<Rightarrow> int \<Rightarrow> int" where
  "month_start l m =
     (if m = 0 then 0 else if m = 1 then 31 else if m = 2 then 59 + l
      else if m = 3 then 90 + l else if m = 4 then 120 + l else if m = 5 then 151 + l
      else if m = 6 then 181 + l else if m = 7 then 212 + l else if m = 8 then 243 + l
      else if m = 9 then 273 + l else if m = 10 then 304 + l else 334 + l)"

definition MakeDay :: "int \<Rightarrow> int \<Rightarrow> int \<Rightarrow> int" where
  "MakeDay y m dt = DayFromYear y + month_start (leap_year y) m + dt - 1"

definition MakeDate :: "int \<Rightarrow> int \<Rightarrow> int" where
  "MakeDate day time = day * msPerDay + time"

definition TimeClip :: "int \<Rightarrow> date_obj" where
  "TimeClip t = (if \<bar>t\<bar> \<le> 8640000000000000 then Time t else Invalid)"

text \<open>
  The date-only form \<open>YYYY-MM-DD\<close> of the date time string format: ten characters,
  digits but for the two hyphens. A string of this form that names a day of the calendar
  is that day at midnight, UTC.
\<close>

definition DaysInMonth :: "int \<Rightarrow> int \<Rightarrow> int" where
  "DaysInMonth y m =
     (if m = 2 then 28 + leap_year y
      else if m = 4 \<or> m = 6 \<or> m = 9 \<or> m = 11 then 30 else 31)"

definition parse_ymd :: "string \<Rightarrow> (int \<times> int \<times> int) option" where
  "parse_ymd s =
     (case s of
        [y1, y2, y3, y4, h1, m1, m2, h2, d1, d2] \<Rightarrow>
          if list_all is_digit [y1, y2, y3, y4, m1, m2, d1, d2] \<and> h1 = CHR ''-'' \<and> h2 = CHR ''-''
          then Some (int (1000 * digit_val y1 + 100 * digit_val y2 + 10 * digit_val y3 + digit_val y4),
                     int (10 * digit_val m1 + digit_val m2),
                     int (10 * digit_val d1 + digit_val d2))
          else None
      | _ \<Rightarrow> None)"

definition calendar_date :: "int \<times> int \<times> int \<Rightarrow> bool" where
  "calendar_date ymd =
     (case ymd of (y, m, d) \<Rightarrow> 1 \<le> m \<and> m \<le> 12 \<and> 1 \<le> d \<and> d \<le> DaysInMonth y m)"

definition Date_parse :: "runtime \<Rightarrow> string \<Rightarrow> int option" where
  "Date_parse rt s =
     (case parse_ymd s of
        Some (y, m, d) \<Rightarrow>
          if calendar_date (y, m, d) then Some (MakeDate (MakeDay y (m - 1) d) 0)
          else parse_other rt s
      | None \<Rightarrow> parse_other rt s)"

text \<open>\<open>new Date(s)\<close> for a string \<open>s\<close>.\<close>

definition new_Date :: "runtime \<Rightarrow> string \<Rightarrow> date_obj" where
  "new_Date rt s = (case Date_parse rt s of None \<Rightarrow> Invalid | Some t \<Rightarrow> TimeClip t)"

text \<open>\<open>isNaN(dt)\<close> on a \<open>Date\<close>: its time value is not a number.\<close>

fun isNaN :: "date_obj \<Rightarrow> bool" where
  "isNaN Invalid = True"
| "isNaN (Time t) = False"

text \<open>
  \<open>dt.toISOString()\<close>: \<open>YYYY-MM-DDTHH:mm:ss.sssZ\<close>, the year with four digits from 0
  to 9999 and with a sign and six digits otherwise. It throws a \<open>RangeError\<close> on an
  invalid date.
\<close>

definition year_text :: "int \<Rightarrow> string" where
  "year_text y =
     (if 0 \<le> y \<and> y \<le> 9999 then pad 4 (nat y)
      else (if y < 0 then ''-'' else ''+'') @ pad 6 (nat \<bar>y\<bar>))"

fun toISOString :: "date_obj \<Rightarrow> error + string" where
  "toISOString Invalid = Inl (RangeError ''Invalid time value'')"
| "toISOString (Time t) =
     Inr (year_text (YearFromTime t) @ ''-'' @ pad 2 (nat (MonthFromTime t + 1)) @ ''-'' @
          pad 2 (nat (DateFromTime t)) @ ''T'' @ pad 2 (nat (HourFromTime t)) @ '':'' @
          pad 2 (nat (MinFromTime t)) @ '':'' @ pad 2 (nat (SecFromTime t)) @ ''.'' @
          pad 3 (nat (msFromTime t)) @ ''Z'')"

text \<open>A canonical date string: the form \<open>YYYY-MM-DD\<close>, naming a day of the calendar.\<close>

definition canonical :: "string \<Rightarrow> bool" where
  "canonical s = (case parse_ymd s of Some ymd \<Rightarrow> calendar_date ymd | None \<Rightarrow> False)"

section \<open>The pipeline (tools/scrape-otc-and-sec.js and its second version)\<close>

text \<open>
  The repository holds two versions of the pipeline script. Definitions of the file
  \<open>tools/scrape-otc-and-sec.js\<close> carry the prefix \<open>tools_\<close>, those of the second
  file (with \<open>toISO\<close>, \<open>getJson\<close> and \<open>getSecRecentFilings\<close>) the prefix \<open>v2_\<close>,
  where the two differ.
\<close>

datatype provenance = SEC | OTC

record candidate =
  source :: provenance
  title :: jsv
  link :: jsv
  date :: jsv
  description :: jsv

subsection \<open>Date normalization\<close>

text \<open>
  \<^verbatim>\<open>function toISO(d) {
    const dt = d ? new Date(d) : null;
    return dt && !isNaN(dt) ? dt.toISOString().slice(0, 10) : null; }\<close>
  A \<open>Date\<close> object is truthy, \<open>null\<close> is not.
\<close>

definition toISO :: "runtime \<Rightarrow> jsv \<Rightarrow> error + jsv" where
  "toISO rt d =
     (let dt = (if truthy d then Some (new_Date rt (to_string d)) else None) in
      case dt of
        Some x \<Rightarrow>
          if \<not> isNaN x
          then (case toISOString x of Inl e \<Rightarrow> Inl e | Inr s \<Rightarrow> Inr (Str (take 10 s)))
          else Inr Null
      | None \<Rightarrow> Inr Null)"

text \<open>
  The first version normalizes inside \<open>scrapeOtcDisclosures\<close>:
  \<^verbatim>\<open>let d = i.date ? new Date(i.date) : null;
  if (d && isNaN(d)) d = null;
  return { ...i, date: d ? d.toISOString().slice(0, 10) : null };\<close>
\<close>

definition tools_normalize :: "runtime \<Rightarrow> jsv \<Rightarrow> error + jsv" where
  "tools_normalize rt v =
     (let d = (if truthy v then Some (new_Date rt (to_string v)) else None);
          d' = (case d of Some x \<Rightarrow> if isNaN x then None else d | None \<Rightarrow> d) in
      case d' of
        Some x \<Rightarrow> (case toISOString x of Inl e \<Rightarrow> Inl e | Inr s \<Rightarrow> Inr (Str (take 10 s)))
      | None \<Rightarrow> Inr Null)"

subsection \<open>The webpage extractor\<close>

text \<open>
  What the code run inside the page finds for one qualifying anchor: its trimmed text,
  its target as an absolute URL, and the date text found near it (empty when none).
  Launching the browser, loading the page and walking the DOM are outside the model; their
  outcome, the rows or an exception, is an input.
\<close>

record anchor_row =
  a_text :: string
  a_href :: string
  a_date :: string

definition v2_row :: "anchor_row \<Rightarrow> candidate" where
  "v2_row a =
     \<lparr>source = OTC, title = Str (a_text a), link = Str (a_href a),
      date = (if a_date a \<noteq> [] then Str (a_date a) else Null),
      description = Str ''OTC Disclosure & News Service''\<rparr>"

definition tools_row :: "anchor_row \<Rightarrow> candidate" where
  "tools_row a =
     \<lparr>source = OTC, title = Str (a_text a), link = Str (a_href a),
      date = (if a_date a \<noteq> [] then Str (a_date a) else Null),
      description = Undefined\<rparr>"

text \<open>\<open>xs.map(f)\<close> for an \<open>f\<close> that may throw: the first exception ends the map.\<close>

fun map_throwing :: "('a \<Rightarrow> error + 'b) \<Rightarrow> 'a list \<Rightarrow> error + 'b list" where
  "map_throwing f [] = Inr []"
| "map_throwing f (x # xs) =
     (case f x of
        Inl e \<Rightarrow> Inl e
      | Inr y \<Rightarrow> (case map_throwing f xs of Inl e \<Rightarrow> Inl e | Inr ys \<Rightarrow> Inr (y # ys)))"

definition with_date :: "(jsv \<Rightarrow> error + jsv) \<Rightarrow> candidate \<Rightarrow> error + candidate" where
  "with_date f i = (case f (date i) of Inl e \<Rightarrow> Inl e | Inr d \<Rightarrow> Inr (i\<lparr>date := d\<rparr>))"

definition v2_scrapeOtcDisclosures :: "runtime \<Rightarrow> error + anchor_row list \<Rightarrow> error + candidate list" where
  "v2_scrapeOtcDisclosures rt page_rows =
     (case page_rows of
        Inl e \<Rightarrow> Inl e
      | Inr rows \<Rightarrow>
          (case map_throwing (with_date (toISO rt)) (map v2_row rows) of
             Inl e \<Rightarrow> Inl e
           | Inr items \<Rightarrow>
               Inr (filter (\<lambda>i. truthy (title i) \<and> truthy (link i) \<and> truthy (date i)) items)))"

definition tools_scrapeOtcDisclosures :: "runtime \<Rightarrow> error + anchor_row list \<Rightarrow> error + candidate list" where
  "tools_scrapeOtcDisclosures rt page_rows =
     (case page_rows of
        Inl e \<Rightarrow> Inl e
      | Inr rows \<Rightarrow>
          (case map_throwing (with_date (tools_normalize rt)) (map tools_row rows) of
             Inl e \<Rightarrow> Inl e
           | Inr items \<Rightarrow> Inr (filter (\<lambda>i. truthy (title i) \<and> truthy (link i)) items)))"

subsection \<open>The regulatory extractor\<close>

text \<open>
  \<open>filings.recent\<close> of the response: four arrays, read by position. Reading an array
  past its end gives \<open>undefined\<close>.
\<close>

record recent =
  form :: "jsv list"
  filingDate :: "jsv list"
  accessionNumber :: "jsv list"
  primaryDocument :: "jsv list"

definition item_at :: "jsv list \<Rightarrow> nat \<Rightarrow> jsv" where
  "item_at xs i = (if i < length xs then xs ! i else Undefined)"

definition keepForms :: "string list" where
  "keepForms = [''8-K'', ''10-Q'', ''10-K'', ''6-K'', ''S-1'', ''S-3'', ''SC 13D'', ''SC 13G'', ''DEF 14A'']"

fun kept :: "jsv \<Rightarrow> bool" where
  "kept (Str f) = (f \<in> set keepForms)"
| "kept Undefined = False"
| "kept Null = False"

text \<open>\<open>acc.replace(/-/g, '')\<close>.\<close>

definition strip_dashes :: "string \<Rightarrow> string" where
  "strip_dashes s = filter (\<lambda>c. c \<noteq> CHR ''-'') s"

definition edgar_link :: "runtime \<Rightarrow> string \<Rightarrow> string \<Rightarrow> jsv \<Rightarrow> string" where
  "edgar_link rt cik acc primary =
     ''https://www.sec.gov/Archives/edgar/data/'' @ Number_text rt cik @ ''/'' @
     strip_dashes acc @ ''/'' @ to_string primary"

text \<open>
  The loop of \<open>getSecRecentFilings\<close> over the positions \<open>0, ..., n - 1\<close>. Calling
  \<open>replace\<close> on an accession number that is not a string throws a \<open>TypeError\<close>.
\<close>

fun v2_filings_loop ::
  "runtime \<Rightarrow> string \<Rightarrow> recent \<Rightarrow> nat list \<Rightarrow> candidate list \<Rightarrow> error + candidate list" where
  "v2_filings_loop rt cik10 r [] out = Inr out"
| "v2_filings_loop rt cik10 r (i # is) out =
     (let f = item_at (form r) i in
      if \<not> kept f then v2_filings_loop rt cik10 r is out
      else
        (let filed = item_at (filingDate r) i;
             acc = item_at (accessionNumber r) i;
             primary = item_at (primaryDocument r) i in
         case acc of
           Str a \<Rightarrow>
             v2_filings_loop rt cik10 r is
               (out @ [\<lparr>source = SEC, title = Str (to_string f @ '' filed''),
                        link = Str (edgar_link rt cik10 a primary), date = filed,
                        description = Str ''SEC EDGAR filing''\<rparr>])
         | Undefined \<Rightarrow> Inl (TypeError ''acc.replace'')
         | Null \<Rightarrow> Inl (TypeError ''acc.replace'')))"

text \<open>
  \<open>getSecRecentFilings(cik10)\<close>. Its input besides \<open>cik10\<close> is the outcome of
  \<open>getJson\<close>: an exception, or \<open>json?.filings?.recent\<close> of the response (\<open>None\<close>
  when absent).
\<close>

definition v2_getSecRecentFilings ::
  "runtime \<Rightarrow> string \<Rightarrow> error + recent option \<Rightarrow> error + candidate list" where
  "v2_getSecRecentFilings rt cik10 fetched =
     (case fetched of
        Inl e \<Rightarrow> Inl e
      | Inr None \<Rightarrow> Inr []
      | Inr (Some r) \<Rightarrow> v2_filings_loop rt cik10 r [0..<min (length (form r)) 200] [])"

text \<open>
  The first version: \<open>filterMapSecFilings(submissions)\<close> reads the issuer identifier
  from the response, bounds the loop by the accession numbers and attaches no description.
\<close>

record submissions =
  cik :: jsv
  filings_recent :: "recent option"

fun tools_filings_loop ::
  "runtime \<Rightarrow> submissions \<Rightarrow> recent \<Rightarrow> nat list \<Rightarrow> candidate list \<Rightarrow> error + candidate list" where
  "tools_filings_loop rt subs r [] out = Inr out"
| "tools_filings_loop rt subs r (i # is) out =
     (let f = item_at (form r) i in
      if \<not> kept f then tools_filings_loop rt subs r is out
      else
        (let acc = item_at (accessionNumber r) i;
             primaryDoc = item_at (primaryDocument r) i;
             filed = item_at (filingDate r) i;
             cik_text = padStart 10 (to_string (cik subs)) in
         case acc of
           Str a \<Rightarrow>
             tools_filings_loop rt subs r is
               (out @ [\<lparr>source = SEC, title = Str (to_string f @ '' filed''),
                        link = Str (edgar_link rt cik_text a primaryDoc), date = filed,
                        description = Undefined\<rparr>])
         | Undefined \<Rightarrow> Inl (TypeError ''acc.replace'')
         | Null \<Rightarrow> Inl (TypeError ''acc.replace'')))"

definition filterMapSecFilings :: "runtime \<Rightarrow> submissions \<Rightarrow> error + candidate list" where
  "filterMapSecFilings rt subs =
     (case filings_recent subs of
        None \<Rightarrow> Inr []
      | Some r \<Rightarrow> tools_filings_loop rt subs r [0..<min (length (accessionNumber r)) 200] [])"

subsection \<open>The reconciler\<close>

text \<open>The identity key: \<open>`${x.title}|${x.link}|${x.date}`\<close>.\<close>

definition key :: "candidate \<Rightarrow> string" where
  "key x = to_string (title x) @ ''|'' @ to_string (link x) @ ''|'' @ to_string (date x)"

text \<open>
  A \<open>Map\<close> keeps its entries in the order in which their keys were first set;
  \<open>map.set(k, v)\<close> on a key that is present replaces the value where it stands.
\<close>

fun map_set :: "'k \<Rightarrow> 'v \<Rightarrow> ('k \<times> 'v) list \<Rightarrow> ('k \<times> 'v) list" where
  "map_set k v [] = [(k, v)]"
| "map_set k v ((k', v') # m) = (if k' = k then (k', v) # m else (k', v') # map_set k v m)"

definition map_values :: "('k \<times> 'v) list \<Rightarrow> 'v list" where
  "map_values m = map snd m"

text \<open>
  \<open>Array.prototype.sort\<close> with a comparator belongs to the runtime. It is modelled as
  sorting by insertion: each element in turn is put before the first element
  of the part sorted so far that the comparator orders after it (\<open>cmp x y < 0\<close>).
\<close>

fun insert_by :: "('a \<Rightarrow> 'a \<Rightarrow> int) \<Rightarrow> 'a \<Rightarrow> 'a list \<Rightarrow> 'a list" where
  "insert_by cmp x [] = [x]"
| "insert_by cmp x (y # ys) = (if cmp x y < 0 then x # y # ys else y # insert_by cmp x ys)"

fun sort_loop :: "('a \<Rightarrow> 'a \<Rightarrow> int) \<Rightarrow> 'a list \<Rightarrow> 'a list \<Rightarrow> 'a list" where
  "sort_loop cmp ys [] = ys"
| "sort_loop cmp ys (x # xs) = sort_loop cmp (insert_by cmp x ys) xs"

definition array_sort :: "('a \<Rightarrow> 'a \<Rightarrow> int) \<Rightarrow> 'a list \<Rightarrow> 'a list" where
  "array_sort cmp xs = sort_loop cmp [] xs"

text \<open>The comparator \<open>(a, b) => (a.date < b.date ? 1 : -1)\<close>.\<close>

definition by_date :: "runtime \<Rightarrow> candidate \<Rightarrow> candidate \<Rightarrow> int" where
  "by_date rt a b = (if js_lt rt (date a) (date b) then 1 else - 1)"

text \<open>
  \<open>mergeAndSort\<close> of the first version skips every record that lacks a title, a link or
  a date:
  \<^verbatim>\<open>for (const i of items) {
    if (!i.title || !i.link || !i.date) continue;
    map.set(key(i), i); }\<close>
\<close>

fun tools_collect :: "(string \<times> candidate) list \<Rightarrow> candidate list \<Rightarrow> (string \<times> candidate) list" where
  "tools_collect m [] = m"
| "tools_collect m (i # items) =
     (if \<not> truthy (title i) \<or> \<not> truthy (link i) \<or> \<not> truthy (date i) then tools_collect m items
      else tools_collect (map_set (key i) i m) items)"

definition tools_mergeAndSort :: "runtime \<Rightarrow> candidate list \<Rightarrow> candidate list" where
  "tools_mergeAndSort rt items = array_sort (by_date rt) (map_values (tools_collect [] items))"

text \<open>
  \<open>mergeAndSort\<close> of the second version sets every record:
  \<^verbatim>\<open>for (const i of items) map.set(key(i), i);\<close>
\<close>

fun v2_collect :: "(string \<times> candidate) list \<Rightarrow> candidate list \<Rightarrow> (string \<times> candidate) list" where
  "v2_collect m [] = m"
| "v2_collect m (i # items) = v2_collect (map_set (key i) i m) items"

definition v2_mergeAndSort :: "runtime \<Rightarrow> candidate list \<Rightarrow> candidate list" where
  "v2_mergeAndSort rt items = array_sort (by_date rt) (map_values (v2_collect [] items))"

text \<open>A record that passes the completeness test: title, link and date are all truthy.\<close>

definition complete :: "candidate \<Rightarrow> bool" where
  "complete i = (truthy (title i) \<and> truthy (link i) \<and> truthy (date i))"

text \<open>
  Consecutive elements do not increase by date: the date text of the second is not above
  the date text of the first, comparing strings lexicographically.
\<close>

fun non_increasing :: "candidate list \<Rightarrow> bool" where
  "non_increasing [] = True"
| "non_increasing [x] = True"
| "non_increasing (x # y # zs) =
     (to_string (date y) \<le> to_string (date x) \<and> non_increasing (y # zs))"

subsection \<open>The run of the pipeline\<close>

text \<open>
  A run ends with an exit code. What it did to the world is recorded: the file written
  (path and content), the warnings (\<open>console.warn\<close>), the log lines (\<open>console.log\<close>)
  and the errors reported (\<open>console.error\<close>). An exception that reaches the final
  \<open>catch\<close> is reported and the process exits with code 1.
\<close>

datatype log_line = Wrote nat string

record 'a run =
  exit_code :: nat
  written :: "(string \<times> 'a list) option"
  warnings :: "(string \<times> string) list"
  logs :: "log_line list"
  errors :: "error list"

definition aborted :: "(string \<times> string) list \<Rightarrow> error \<Rightarrow> 'a run" where
  "aborted ws e = \<lparr>exit_code = 1, written = None, warnings = ws, logs = [], errors = [e]\<rparr>"

text \<open>
  The outcomes of the calls that leave the program are inputs of a run: the lookup of the
  issuer identifier (\<open>resolveCikFromTicker\<close>: an exception, the padded identifier or
  \<open>null\<close>), the fetch of the filings for an identifier, the work in the browser, and
  \<open>fs.writeFile\<close> (\<open>Some e\<close> when it throws). The second version reads the output
  path from the variable \<open>WRITE_PATH\<close> of the process environment.
\<close>

record v2_env =
  tickers_outcome :: "error + string option"
  filings_outcome :: "string \<Rightarrow> error + recent option"
  page_outcome :: "error + anchor_row list"
  write_outcome :: "error option"
  env_WRITE_PATH :: "string option"

definition WRITE_PATH :: "v2_env \<Rightarrow> string" where
  "WRITE_PATH env =
     (case env_WRITE_PATH env of
        Some p \<Rightarrow> if p \<noteq> [] then p else ''disclosures.json''
      | None \<Rightarrow> ''disclosures.json'')"

text \<open>
  The second version: the regulatory extractor first, then the webpage extractor inside
  \<open>try\<close>; an exception of the webpage extractor is caught, a warning is written and
  \<open>otcItems\<close> stays empty.
\<close>

text \<open>\<open>const secItems = cik ? await getSecRecentFilings(cik) : [];\<close>\<close>

definition v2_secItems :: "runtime \<Rightarrow> v2_env \<Rightarrow> string option \<Rightarrow> error + candidate list" where
  "v2_secItems rt env found =
     (case found of
        Some c \<Rightarrow>
          if c \<noteq> [] then v2_getSecRecentFilings rt c (filings_outcome env c) else Inr []
      | None \<Rightarrow> Inr [])"

definition v2_main :: "runtime \<Rightarrow> v2_env \<Rightarrow> candidate run" where
  "v2_main rt env =
     (case tickers_outcome env of
        Inl e \<Rightarrow> aborted [] e
      | Inr found \<Rightarrow>
          (case v2_secItems rt env found of
             Inl e \<Rightarrow> aborted [] e
           | Inr secItems \<Rightarrow>
               (let (otcItems, ws) =
                      (case v2_scrapeOtcDisclosures rt (page_outcome env) of
                         Inl e \<Rightarrow>
                           ([], [(''OTC scrape failed, continuing with SEC only:'', message e)])
                       | Inr items \<Rightarrow> (items, []));
                    merged = v2_mergeAndSort rt (secItems @ otcItems)
                in case write_outcome env of
                     Some e \<Rightarrow> aborted ws e
                   | None \<Rightarrow>
                       \<lparr>exit_code = 0, written = Some (WRITE_PATH env, merged), warnings = ws,
                        logs = [Wrote (length merged) (WRITE_PATH env)], errors = []\<rparr>)))"

text \<open>
  The first version: the webpage extractor first and outside any \<open>try\<close>, then the
  regulatory extractor; the merged records are mapped to the four fields of the feed,
  the description chosen by the source.
\<close>

record feed_record =
  f_title :: jsv
  f_date :: jsv
  f_description :: string
  f_link :: jsv

definition tools_feed_record :: "candidate \<Rightarrow> feed_record" where
  "tools_feed_record i =
     \<lparr>f_title = title i, f_date = date i,
      f_description = (if source i = SEC then ''SEC EDGAR filing'' else ''OTC Disclosure & News Service''),
      f_link = link i\<rparr>"

record tools_env =
  t_page_outcome :: "error + anchor_row list"
  t_tickers_outcome :: "error + string option"
  t_submissions_outcome :: "string \<Rightarrow> error + submissions"
  t_write_outcome :: "error option"

text \<open>
  \<^verbatim>\<open>let sec = [];
  if (CIK) { const subs = await getSecCompanySubmissionsJson(CIK);
             sec = filterMapSecFilings(subs); }\<close>
\<close>

definition tools_sec :: "runtime \<Rightarrow> tools_env \<Rightarrow> string option \<Rightarrow> error + candidate list" where
  "tools_sec rt env found =
     (case found of
        Some c \<Rightarrow>
          if c \<noteq> [] then
            (case t_submissions_outcome env c of
               Inl e \<Rightarrow> Inl e
             | Inr subs \<Rightarrow> filterMapSecFilings rt subs)
          else Inr []
      | None \<Rightarrow> Inr [])"

definition tools_main :: "runtime \<Rightarrow> tools_env \<Rightarrow> feed_record run" where
  "tools_main rt env =
     (case tools_scrapeOtcDisclosures rt (t_page_outcome env) of
        Inl e \<Rightarrow> aborted [] e
      | Inr otc \<Rightarrow>
          (case t_tickers_outcome env of
             Inl e \<Rightarrow> aborted [] e
           | Inr found \<Rightarrow>
               (case tools_sec rt env found of
                  Inl e \<Rightarrow> aborted [] e
                | Inr sec \<Rightarrow>
                    (let merged = map tools_feed_record (tools_mergeAndSort rt (otc @ sec))
                     in case t_write_outcome env of
                          Some e \<Rightarrow> aborted [] e
                        | None \<Rightarrow>
                            \<lparr>exit_code = 0, written = Some (''disclosures.json'', merged),
                             warnings = [], logs = [Wrote (length merged) ''disclosures.json''],
                             errors = []\<rparr>))))"

text \<open>
  Sorted by date, descending: the date text of an element is not above the date text of
  any element before it.
\<close>

definition descending :: "candidate list \<Rightarrow> bool" where
  "descending xs = sorted_wrt (\<lambda>a b. to_string (date b) \<le> to_string (date a)) xs"

text \<open>A map of the reconciler: every key is set once, and is the key of its record.\<close>

definition keyed :: "(string \<times> candidate) list \<Rightarrow> bool" where
  "keyed m = (distinct (map fst m) \<and> (\<forall>(k, v)\<in>set m. k = key v))"

text \<open>The last record of a list that has a given key.\<close>

definition last_with :: "string \<Rightarrow> candidate list \<Rightarrow> candidate option" where
  "last_with k items =
     (let ys = filter (\<lambda>x. key x = k) items in if ys = [] then None else Some (last ys))"

text \<open>
  A runtime to evaluate examples with: every date text outside the form \<open>YYYY-MM-DD\<close>
  is an invalid date, every string converts to \<open>NaN\<close>.
\<close>

definition plain_runtime :: runtime where
  "plain_runtime =
     \<lparr>string_sign = (\<lambda>s. NaN), parse_other = (\<lambda>s. None), number_other = (\<lambda>s. ''NaN'')\<rparr>"

subsection \<open>Sample records\<close>

definition annual :: candidate where
  "annual = \<lparr>source = OTC, title = Str ''Annual Report'', link = Str ''https://x.test/file/1'',
     date = Str ''2024-01-15'', description = Str ''OTC Disclosure & News Service''\<rparr>"

definition current :: candidate where
  "current = \<lparr>source = SEC, title = Str ''8-K filed'', link = Str ''https://x.test/file/2'',
     date = Str ''2024-03-01'', description = Str ''SEC EDGAR filing''\<rparr>"

definition quarterly :: candidate where
  "quarterly = \<lparr>source = SEC, title = Str ''10-Q filed'', link = Str ''https://x.test/file/3'',
     date = Str ''2023-11-14'', description = Str ''SEC EDGAR filing''\<rparr>"

text \<open>The same disclosure seen by both extractors: equal title, link and date.\<close>

definition seen_by_sec :: candidate where
  "seen_by_sec = \<lparr>source = SEC, title = Str ''Annual Report'', link = Str ''https://x.test/file/1'',
     date = Str ''2024-01-15'', description = Str ''SEC EDGAR filing''\<rparr>"

text \<open>Two records for one link whose date could not be read.\<close>

definition undated_sec :: candidate where
  "undated_sec = \<lparr>source = SEC, title = Str ''Notice'', link = Str ''https://x.test/file/4'',
     date = Null, description = Str ''SEC EDGAR filing''\<rparr>"

definition undated_otc :: candidate where
  "undated_otc = \<lparr>source = OTC, title = Str ''Notice'', link = Str ''https://x.test/file/4'',
     date = Null, description = Str ''OTC Disclosure & News Service''\<rparr>"

text \<open>Two records whose titles and links differ and whose keys are equal.\<close>

definition bar_in_title :: candidate where
  "bar_in_title = \<lparr>source = OTC, title = Str ''a|b'', link = Str ''c'',
     date = Str ''2024-01-01'', description = Str ''OTC Disclosure & News Service''\<rparr>"

definition bar_in_link :: candidate where
  "bar_in_link = \<lparr>source = OTC, title = Str ''a'', link = Str ''b|c'',
     date = Str ''2024-01-01'', description = Str ''OTC Disclosure & News Service''\<rparr>"

section \<open>Properties of the feed consumer\<close>

lemma replacement_escaped: "in_class c \<Longrightarrow> replacement c = escaped c"
  by (auto simp: in_class_def replacement_def entity_table_def escaped_def)

lemma escaped_plain: "\<not> in_class c \<Longrightarrow> escaped c = [c]"
  by (auto simp: in_class_def escaped_def)

lemma escapeHtml_concat: "escapeHtml s = concat (map escaped s)"
  by (induction s) (simp_all add: replacement_escaped escaped_plain)

lemma escaped_no_markup: "x \<in> set (escaped c) \<Longrightarrow> \<not> markup x"
  by (auto simp: escaped_def markup_def split: if_splits)

lemma escapeHtml_no_markup: "x \<in> set (escapeHtml s) \<Longrightarrow> \<not> markup x"
  by (auto simp: escapeHtml_concat dest: escaped_no_markup)

lemma entity_at_appendI: "entity_at a i \<Longrightarrow> entity_at (a @ b) i"
  unfolding entity_at_def list_ex_iff
proof (elim bexE)
  fix e assume e: "e \<in> set entities" and t: "take (length e) (drop i a) = e"
  from arg_cong[OF t, of length] have len: "length e \<le> length (drop i a)"
    by simp
  have "e \<noteq> []" using e by (auto simp: entities_def)
  with len have "i \<le> length a" by (cases "i \<le> length a") auto
  then have "take (length e) (drop i (a @ b)) = e" using t len by simp
  with e show "\<exists>e\<in>set entities. take (length e) (drop i (a @ b)) = e" by blast
qed

lemma entity_at_shift: "entity_at b j \<Longrightarrow> entity_at (a @ b) (length a + j)"
  by (simp add: entity_at_def)

lemma escaped_amp:
  "i < length (escaped c) \<Longrightarrow> escaped c ! i = CHR ''&'' \<Longrightarrow> entity_at (escaped c) i"
  by (auto simp: escaped_def entity_at_def entities_def nth_Cons' less_Suc_eq split: if_splits)

lemma escapeHtml_amp:
  "i < length (escapeHtml s) \<Longrightarrow> escapeHtml s ! i = CHR ''&'' \<Longrightarrow> entity_at (escapeHtml s) i"
proof (induction s arbitrary: i)
  case Nil
  then show ?case by simp
next
  case (Cons c s)
  have out: "escapeHtml (c # s) = escaped c @ escapeHtml s"
    by (simp add: escapeHtml_concat)
  show ?case
  proof (cases "i < length (escaped c)")
    case True
    with Cons.prems[unfolded out] have "escaped c ! i = CHR ''&''" by (simp add: nth_append)
    then have "entity_at (escaped c) i" using True by (rule escaped_amp[rotated])
    then show ?thesis unfolding out by (rule entity_at_appendI)
  next
    case False
    define j where "j = i - length (escaped c)"
    have i: "i = length (escaped c) + j" using False by (simp add: j_def)
    from Cons.prems[unfolded out] have "j < length (escapeHtml s)" "escapeHtml s ! j = CHR ''&''"
      by (simp_all add: i nth_append)
    then have "entity_at (escapeHtml s) j" by (rule Cons.IH)
    then show ?thesis unfolding out i by (rule entity_at_shift)
  qed
qed

text \<open>
  C10. For every input string, \<open>escapeHtml\<close> returns the input with each of the
  characters \<open>&\<close>, \<open><\<close>, \<open>>\<close>, the double quote and the single quote replaced
  by its entity and every other character kept. The result holds no raw \<open><\<close>, \<open>>\<close>,
  double quote or single quote, and at every position of the result that holds \<open>&\<close>
  one of the five entities starts. The same holds of the title and the description that a
  card shows, which are results of \<open>escapeHtml\<close>.
\<close>

theorem escapeHtml_entities:
  "escapeHtml s = concat (map escaped s) \<and>
   (\<forall>x\<in>set (escapeHtml s). \<not> markup x) \<and>
   (\<forall>i<length (escapeHtml s). escapeHtml s ! i = CHR ''&'' \<longrightarrow> entity_at (escapeHtml s) i) \<and>
   (\<forall>x\<in>set (card_title it). \<not> markup x) \<and>
   (\<forall>x\<in>set (card_description it). \<not> markup x)"
  using escapeHtml_concat escapeHtml_no_markup escapeHtml_amp
  unfolding card_title_def card_description_def by blast

theorem escapeHtml_entities_witness:
  "escapeHtml (''&<b>'' @ [CHR 0x22, CHR 0x27]) = ''&amp;&lt;b&gt;&quot;&#039;'' \<and>
   CHR ''&'' \<in> set (escapeHtml (''&<b>'' @ [CHR 0x22, CHR 0x27])) \<and>
   \<not> markup (CHR ''&'') \<and>
   escapeHtml (''&<b>'' @ [CHR 0x22, CHR 0x27]) ! 0 = CHR ''&'' \<and>
   entity_at (escapeHtml (''&<b>'' @ [CHR 0x22, CHR 0x27])) 0 \<and>
   CHR ''&'' \<in> set (card_title \<lparr>w_title = ''a&b'', w_description = ''<i>'', w_link = [], w_date = 0\<rparr>) \<and>
   CHR ''&'' \<in> set (card_description \<lparr>w_title = ''a&b'', w_description = ''<i>'', w_link = [], w_date = 0\<rparr>)"
  using escapeHtml_entities [of "''&<b>'' @ [CHR 0x22, CHR 0x27]"
      "\<lparr>w_title = ''a&b'', w_description = ''<i>'', w_link = [], w_date = 0\<rparr>"]
  by (simp add: in_class_def replacement_def entity_table_def markup_def entity_at_def
      entities_def card_title_def card_description_def escaped_def)

text \<open>
  C8, as the code has it. After \<open>renderPage\<close> the page index is at least 1 and at most
  \<open>max(1, ceil(total / 8))\<close>, for every number of filtered records and every prior
  page value. When there is at least one filtered record this upper bound is
  \<open>ceil(total / 8)\<close>; with no record the page index is 1 while \<open>ceil(0 / 8)\<close> is 0.
\<close>

theorem renderPage_page_clamped:
  "1 \<le> page (fst (renderPage w)) \<and>
   page (fst (renderPage w)) \<le> max 1 \<lceil>real (length (filtered w)) / real PAGE_SIZE\<rceil> \<and>
   (filtered w \<noteq> [] \<longrightarrow>
      page (fst (renderPage w)) \<le> \<lceil>real (length (filtered w)) / real PAGE_SIZE\<rceil>)"
  by (simp add: renderPage_def Let_def page_count_def PAGE_SIZE_def)

theorem renderPage_page_clamped_witness:
  "filtered \<lparr>filtered = replicate 9 \<lparr>w_title = ''t'', w_description = [], w_link = [], w_date = 0\<rparr>,
      page = 5\<rparr> \<noteq> [] \<and>
   page (fst (renderPage
     \<lparr>filtered = replicate 9 \<lparr>w_title = ''t'', w_description = [], w_link = [], w_date = 0\<rparr>,
      page = 5\<rparr>)) = 2 \<and>
   \<lceil>real (length (replicate 9 \<lparr>w_title = ''t'', w_description = [], w_link = [], w_date = 0\<rparr>))
      / real PAGE_SIZE\<rceil> = 2"
  using renderPage_page_clamped
    [of "\<lparr>filtered = replicate 9 \<lparr>w_title = ''t'', w_description = [], w_link = [], w_date = 0\<rparr>,
          page = 5\<rparr>"]
  by (simp add: renderPage_def Let_def page_count_def PAGE_SIZE_def)

text \<open>
  The claim as the spec words it, with the interval \<open>[1, ceil(total / pageSize)]\<close> also
  for \<open>total = 0\<close>, fails there: the page index is 1 and the upper bound is 0.
\<close>

theorem renderPage_empty_counterexample:
  "\<not> page (fst (renderPage \<lparr>filtered = [], page = 1\<rparr>))
       \<le> \<lceil>real (length (filtered \<lparr>filtered = [], page = 1\<rparr>)) / real PAGE_SIZE\<rceil>"
  by (simp add: renderPage_def page_count_def)

section \<open>Properties of the date normalizer\<close>

subsection \<open>The calendar: from a date to its day number and back\<close>

lemma DayFromYear_mono: "a \<le> b \<Longrightarrow> DayFromYear a \<le> DayFromYear b"
proof (induction b rule: int_ge_induct)
  case base
  show ?case by simp
next
  case (step i)
  have "DayFromYear i \<le> DayFromYear (i + 1)"
    using DayFromYear_step [of i] by (simp add: DaysInYear_def)
  with step.IH show ?case by simp
qed

lemma year_down_finds:
  "DayFromYear y \<le> d \<Longrightarrow> d < DayFromYear (y + 1) \<Longrightarrow> y \<le> y0 \<Longrightarrow> year_down d y0 = y"
proof (induction d y0 rule: year_down.induct)
  case (1 d y0)
  show ?case
  proof (cases "d < DayFromYear y0")
    case True
    with "1.prems"(1) have "y \<noteq> y0" by auto
    with "1.prems"(3) have "y \<le> y0 - 1" by simp
    with "1.IH" [OF True "1.prems"(1,2)] have "year_down d (y0 - 1) = y" .
    with True show ?thesis by (subst year_down.simps) simp
  next
    case False
    have "\<not> y + 1 \<le> y0"
    proof
      assume "y + 1 \<le> y0"
      then have "DayFromYear (y + 1) \<le> DayFromYear y0" by (rule DayFromYear_mono)
      with False "1.prems"(2) show False by simp
    qed
    with "1.prems"(3) have "y0 = y" by simp
    with False show ?thesis by (subst year_down.simps) simp
  qed
qed

lemma DayFromYear_1970: "DayFromYear 1970 = 0"
  by (simp add: DayFromYear_def)

lemma DayFromYear_lower: "1970 \<le> y \<Longrightarrow> 365 * (y - 1970) \<le> DayFromYear y"
proof (induction y rule: int_ge_induct)
  case base
  show ?case by (simp add: DayFromYear_1970)
next
  case (step i)
  have "365 \<le> DaysInYear i" by (simp add: DaysInYear_def)
  with step.IH show ?case unfolding DayFromYear_step by simp
qed

lemma YearFromDay_finds:
  assumes lo: "DayFromYear y \<le> d" and hi: "d < DayFromYear (y + 1)"
  shows "YearFromDay d = y"
proof -
  have "y \<le> (if d < 0 then 1970 else 1970 + d div 365)"
  proof (cases "d < 0")
    case True
    have "\<not> 1970 \<le> y"
    proof
      assume "1970 \<le> y"
      then have "DayFromYear 1970 \<le> DayFromYear y" by (rule DayFromYear_mono)
      with lo True show False by (simp add: DayFromYear_1970)
    qed
    with True show ?thesis by simp
  next
    case False
    show ?thesis
    proof (cases "1970 \<le> y")
      case True
      from DayFromYear_lower [OF True] lo have "365 * (y - 1970) \<le> d" by simp
      then have "(365 * (y - 1970)) div 365 \<le> d div 365" by (rule zdiv_mono1) simp
      then have "y - 1970 \<le> d div 365" by simp
      with False show ?thesis by simp
    next
      case y: False
      from False have "0 \<le> d div 365" by (simp add: pos_imp_zdiv_nonneg_iff)
      with y False show ?thesis by simp
    qed
  qed
  then show ?thesis unfolding YearFromDay_def by (rule year_down_finds [OF lo hi])
qed

lemma month_cases:
  "1 \<le> m \<Longrightarrow> m \<le> 12 \<Longrightarrow>
   m = 1 \<or> m = 2 \<or> m = 3 \<or> m = 4 \<or> m = 5 \<or> m = 6 \<or> m = 7 \<or> m = 8
      \<or> m = 9 \<or> m = 10 \<or> m = 11 \<or> m = (12::int)"
  by arith

lemma leap_year_cases: "leap_year y = 0 \<and> DaysInYear y = 365 \<or> leap_year y = 1 \<and> DaysInYear y = 366"
  by (simp add: leap_year_def DaysInYear_def)

lemma month_roundtrip:
  assumes "1 \<le> m" "m \<le> 12" "1 \<le> d" "d \<le> DaysInMonth y m"
  defines "w \<equiv> month_start (leap_year y) (m - 1) + d - 1"
  shows "0 \<le> w" and "w < DaysInYear y"
    and "month_of_day (leap_year y) w = m - 1" and "date_of_day (leap_year y) (m - 1) w = d"
proof -
  note m = month_cases [OF assms(1,2)]
  have dim: "d \<le> (if m = 2 then 28 + leap_year y else if m = 4 \<or> m = 6 \<or> m = 9 \<or> m = 11 then 30 else 31)"
    using assms(4) by (simp add: DaysInMonth_def)
  from m assms(3) show "0 \<le> w"
    using leap_year_cases [of y] unfolding w_def
    by (elim disjE) (simp_all add: month_start_def)
  from m dim show "w < DaysInYear y"
    using leap_year_cases [of y] unfolding w_def
    by (elim disjE conjE) (simp_all add: month_start_def)
  from m dim assms(3) show "month_of_day (leap_year y) w = m - 1"
    using leap_year_cases [of y] unfolding w_def
    by (elim disjE conjE) (simp_all add: month_start_def month_of_day_def)
  from m show "date_of_day (leap_year y) (m - 1) w = d"
    unfolding w_def
    by (elim disjE) (simp_all add: month_start_def date_of_day_def)
qed

lemma Day_MakeDate: "Day (MakeDate day 0) = day"
  by (simp add: Day_def MakeDate_def msPerDay_def)

lemma calendar_roundtrip:
  assumes "1 \<le> m" "m \<le> 12" "1 \<le> d" "d \<le> DaysInMonth y m"
  defines "t \<equiv> MakeDate (MakeDay y (m - 1) d) 0"
  shows "YearFromTime t = y" and "MonthFromTime t = m - 1" and "DateFromTime t = d"
proof -
  define w where "w = month_start (leap_year y) (m - 1) + d - 1"
  have day: "Day t = DayFromYear y + w"
    by (simp add: t_def Day_MakeDate MakeDay_def w_def leap_year_def)
  note r = month_roundtrip [OF assms(1-4), folded w_def]
  have "YearFromDay (DayFromYear y + w) = y"
    by (rule YearFromDay_finds) (use r(1,2) in \<open>simp_all add: DayFromYear_step\<close>)
  then show y: "YearFromTime t = y" by (simp add: YearFromTime_def day)
  have dwy: "DayWithinYear t = w" by (simp add: DayWithinYear_def y day)
  have l: "InLeapYear t = leap_year y" by (simp add: InLeapYear_def y leap_year_def)
  show mo: "MonthFromTime t = m - 1"
    by (simp add: MonthFromTime_def dwy l r(3))
  show "DateFromTime t = d"
    by (simp add: DateFromTime_def mo dwy l r(4))
qed

lemma digit_val_less: "is_digit c \<Longrightarrow> digit_val c < 10"
  by (auto simp: is_digit_def digit_val_def)

lemma digit_char_val: "is_digit c \<Longrightarrow> digit_char (digit_val c) = c"
  by (auto simp: is_digit_def digit_val_def digit_char_def)

lemma pad_step: "v' < 10 \<Longrightarrow> pad (Suc w) (10 * v + v') = pad w v @ [digit_char v']"
  by simp

lemma length_pad: "length (pad w v) = w"
  by (induction w arbitrary: v) simp_all

lemma pad_2: "pad 2 = pad (Suc (Suc 0))"
  by (simp add: numeral_2_eq_2)

lemma pad_4: "pad 4 = pad (Suc (Suc (Suc (Suc 0))))"
  by (simp add: eval_nat_numeral)

lemma pad2_digits:
  assumes "is_digit a" "is_digit b"
  shows "pad 2 (10 * digit_val a + digit_val b) = [a, b]"
proof -
  have "pad (Suc (Suc 0)) (10 * digit_val a + digit_val b) = pad (Suc 0) (digit_val a) @ [b]"
    using assms by (simp only: pad_step digit_val_less digit_char_val)
  moreover have "pad (Suc 0) (digit_val a) = [a]"
    using pad_step [of "digit_val a" 0 0] assms by (simp add: digit_val_less digit_char_val)
  ultimately show ?thesis unfolding pad_2 by simp
qed

lemma pad4_digits:
  assumes "is_digit a" "is_digit b" "is_digit c" "is_digit d"
  shows "pad 4 (1000 * digit_val a + 100 * digit_val b + 10 * digit_val c + digit_val d) = [a, b, c, d]"
proof -
  have split: "1000 * digit_val a + 100 * digit_val b + 10 * digit_val c + digit_val d
      = 10 * (10 * (10 * digit_val a + digit_val b) + digit_val c) + digit_val d"
    by simp
  have "pad (Suc (Suc (Suc (Suc 0)))) (10 * (10 * (10 * digit_val a + digit_val b) + digit_val c) + digit_val d)
      = pad (Suc (Suc 0)) (10 * digit_val a + digit_val b) @ [c, d]"
    using assms by (simp only: pad_step digit_val_less digit_char_val append_assoc append.simps)
  also have "\<dots> = [a, b, c, d]"
    using pad2_digits [OF assms(1,2)] unfolding pad_2 by simp
  finally show ?thesis unfolding pad_4 split .
qed

lemma parse_ymd_SomeD:
  "parse_ymd s = Some (y, m, d) \<Longrightarrow>
   \<exists>y1 y2 y3 y4 m1 m2 d1 d2.
     s = [y1, y2, y3, y4, CHR ''-'', m1, m2, CHR ''-'', d1, d2] \<and>
     is_digit y1 \<and> is_digit y2 \<and> is_digit y3 \<and> is_digit y4 \<and>
     is_digit m1 \<and> is_digit m2 \<and> is_digit d1 \<and> is_digit d2 \<and>
     y = int (1000 * digit_val y1 + 100 * digit_val y2 + 10 * digit_val y3 + digit_val y4) \<and>
     m = int (10 * digit_val m1 + digit_val m2) \<and>
     d = int (10 * digit_val d1 + digit_val d2)"
  unfolding parse_ymd_def by (simp split: list.splits if_splits)

lemma take_exact: "length a = n \<Longrightarrow> take n (a @ b) = a"
  by simp

lemma DayFromYear_range:
  assumes "0 \<le> y" "y \<le> 9999"
  shows "- 719528 \<le> DayFromYear y" and "DayFromYear y \<le> 2932532"
proof -
  have "DayFromYear 0 \<le> DayFromYear y" using assms(1) by (rule DayFromYear_mono)
  then show "- 719528 \<le> DayFromYear y" by (simp add: DayFromYear_def)
  have "DayFromYear y \<le> DayFromYear 9999" using assms(2) by (rule DayFromYear_mono)
  then show "DayFromYear y \<le> 2932532" by (simp add: DayFromYear_def)
qed

lemma new_Date_calendar:
  assumes p: "parse_ymd s = Some (y, m, d)" and c: "calendar_date (y, m, d)"
    and y: "0 \<le> y" "y \<le> 9999"
  shows "new_Date rt s = Time (MakeDate (MakeDay y (m - 1) d) 0)"
proof -
  from c have md: "1 \<le> m" "m \<le> 12" "1 \<le> d" "d \<le> DaysInMonth y m"
    by (simp_all add: calendar_date_def)
  define w where "w = month_start (leap_year y) (m - 1) + d - 1"
  from month_roundtrip(1,2) [OF md] have w: "0 \<le> w" "w < DaysInYear y"
    by (simp_all add: w_def)
  then have w': "w < 366" by (simp add: DaysInYear_def split: if_splits)
  have t: "MakeDate (MakeDay y (m - 1) d) 0 = (DayFromYear y + w) * 86400000"
    by (simp add: MakeDate_def MakeDay_def msPerDay_def w_def)
  from DayFromYear_range [OF y] w w'
  have "\<bar>(DayFromYear y + w) * 86400000\<bar> \<le> 8640000000000000" by simp
  then show ?thesis
    by (simp add: new_Date_def Date_parse_def p c t TimeClip_def)
qed

lemma toISOString_calendar:
  assumes md: "1 \<le> m" "m \<le> 12" "1 \<le> d" "d \<le> DaysInMonth y m" and y: "0 \<le> y" "y \<le> 9999"
  shows "\<exists>rest. toISOString (Time (MakeDate (MakeDay y (m - 1) d) 0)) =
           Inr ((pad 4 (nat y) @ ''-'' @ pad 2 (nat m) @ ''-'' @ pad 2 (nat d)) @ rest)"
  using calendar_roundtrip [OF md] y by (simp add: year_text_def)

lemma toISO_of_new_Date:
  "toISO rt (Str s) =
     (if s = [] then Inr Null
      else case new_Date rt s of
             Invalid \<Rightarrow> Inr Null
           | Time t \<Rightarrow> (case toISOString (Time t) of Inl e \<Rightarrow> Inl e | Inr x \<Rightarrow> Inr (Str (take 10 x))))"
  by (simp add: toISO_def split: date_obj.splits)

lemma tools_normalize_eq_toISO: "tools_normalize rt v = toISO rt v"
  by (cases v) (simp_all add: tools_normalize_def toISO_def Let_def split: date_obj.splits)

lemma canonical_year_range:
  assumes "parse_ymd s = Some (y, m, d)"
  shows "0 \<le> y" and "y \<le> 9999"
proof -
  from parse_ymd_SomeD [OF assms] obtain y1 y2 y3 y4 where
    dg: "is_digit y1" "is_digit y2" "is_digit y3" "is_digit y4" and
    y: "y = int (1000 * digit_val y1 + 100 * digit_val y2 + 10 * digit_val y3 + digit_val y4)"
    by blast
  show "0 \<le> y" by (simp add: y)
  from dg [THEN digit_val_less] show "y \<le> 9999" unfolding y by linarith
qed

lemma toISO_canonical:
  assumes "canonical s"
  shows "toISO rt (Str s) = Inr (Str s)"
proof -
  from assms obtain y m d where p: "parse_ymd s = Some (y, m, d)" and c: "calendar_date (y, m, d)"
    by (auto simp: canonical_def split: option.splits)
  from c have md: "1 \<le> m" "m \<le> 12" "1 \<le> d" "d \<le> DaysInMonth y m"
    by (simp_all add: calendar_date_def)
  note yr = canonical_year_range [OF p]
  from parse_ymd_SomeD [OF p] obtain y1 y2 y3 y4 m1 m2 d1 d2 where
    s: "s = [y1, y2, y3, y4, CHR ''-'', m1, m2, CHR ''-'', d1, d2]" and
    dg: "is_digit y1" "is_digit y2" "is_digit y3" "is_digit y4"
        "is_digit m1" "is_digit m2" "is_digit d1" "is_digit d2" and
    y: "y = int (1000 * digit_val y1 + 100 * digit_val y2 + 10 * digit_val y3 + digit_val y4)" and
    m: "m = int (10 * digit_val m1 + digit_val m2)" and
    d: "d = int (10 * digit_val d1 + digit_val d2)"
    by blast
  have py: "pad 4 (nat y) = [y1, y2, y3, y4]"
    unfolding y nat_int by (rule pad4_digits [OF dg(1-4)])
  have pm: "pad 2 (nat m) = [m1, m2]"
    unfolding m nat_int by (rule pad2_digits [OF dg(5,6)])
  have pd: "pad 2 (nat d) = [d1, d2]"
    unfolding d nat_int by (rule pad2_digits [OF dg(7,8)])
  from toISOString_calendar [OF md yr] obtain rest where
    iso: "toISOString (Time (MakeDate (MakeDay y (m - 1) d) 0)) =
            Inr ((pad 4 (nat y) @ ''-'' @ pad 2 (nat m) @ ''-'' @ pad 2 (nat d)) @ rest)"
    by blast
  have front: "pad 4 (nat y) @ ''-'' @ pad 2 (nat m) @ ''-'' @ pad 2 (nat d) = s"
    by (simp add: py pm pd s)
  have tk: "take 10 (s @ rest) = s"
    by (rule take_exact) (simp add: s)
  have ne: "s \<noteq> []" by (simp add: s)
  have "toISO rt (Str s) =
      (case toISOString (Time (MakeDate (MakeDay y (m - 1) d) 0)) of
         Inl e \<Rightarrow> Inl e | Inr x \<Rightarrow> Inr (Str (take 10 x)))"
    using ne by (simp add: toISO_of_new_Date new_Date_calendar [OF p c yr] del: toISOString.simps)
  also have "\<dots> = Inr (Str (take 10 (s @ rest)))"
    unfolding iso front by simp
  also have "\<dots> = Inr (Str s)"
    by (simp only: tk)
  finally show ?thesis .
qed

lemma toISO_never_throws: "\<exists>r. toISO rt v = Inr r"
  by (cases v; cases "new_Date rt (to_string v)") (simp_all add: toISO_def Let_def)

text \<open>
  C6. The date normalizer is the identity on canonical dates: for every string of the
  form \<open>YYYY-MM-DD\<close> that names a day of the calendar, \<open>toISO\<close> returns that string,
  and so does the normalization written out in the first version of the scraper.
\<close>

theorem toISO_canonical_fixed:
  "canonical s \<Longrightarrow>
   toISO rt (Str s) = Inr (Str s) \<and> tools_normalize rt (Str s) = Inr (Str s)"
  by (simp add: tools_normalize_eq_toISO toISO_canonical)

theorem toISO_canonical_fixed_witness:
  "canonical ''2024-02-29'' \<and>
   toISO plain_runtime (Str ''2024-02-29'') = Inr (Str ''2024-02-29'') \<and>
   tools_normalize plain_runtime (Str ''2024-02-29'') = Inr (Str ''2024-02-29'')"
proof -
  have c: "canonical ''2024-02-29''"
    by (simp add: canonical_def parse_ymd_def calendar_date_def is_digit_def digit_val_def
        DaysInMonth_def leap_year_def DaysInYear_def)
  from toISO_canonical_fixed [OF c, of plain_runtime] c show ?thesis by simp
qed

text \<open>
  C7. On \<open>undefined\<close>, on \<open>null\<close> and on the empty string the date normalizer returns
  \<open>null\<close>; it throws on no input at all. Both hold for \<open>toISO\<close> and for the
  normalization written out in the first version.
\<close>

theorem toISO_null_safe:
  "toISO rt Undefined = Inr Null \<and> toISO rt Null = Inr Null \<and> toISO rt (Str []) = Inr Null \<and>
   tools_normalize rt Undefined = Inr Null \<and> tools_normalize rt Null = Inr Null \<and>
   tools_normalize rt (Str []) = Inr Null \<and>
   (\<exists>r. toISO rt v = Inr r) \<and> (\<exists>r. tools_normalize rt v = Inr r)"
  using toISO_never_throws [of rt v]
  by (simp add: tools_normalize_eq_toISO) (simp add: toISO_def)

section \<open>Properties of the reconciler\<close>

subsection \<open>The sort\<close>

lemma set_insert_by: "set (insert_by cmp x ys) = insert x (set ys)"
  by (induction ys) auto

lemma count_insert_by:
  "length (filter P (insert_by cmp x ys)) = length (filter P (x # ys))"
  by (induction ys) auto

lemma set_sort_loop: "set (sort_loop cmp acc xs) = set acc \<union> set xs"
  by (induction xs arbitrary: acc) (auto simp: set_insert_by)

lemma count_sort_loop:
  "length (filter P (sort_loop cmp acc xs)) = length (filter P acc) + length (filter P xs)"
  by (induction xs arbitrary: acc) (simp_all add: count_insert_by)

lemma set_array_sort: "set (array_sort cmp xs) = set xs"
  by (simp add: array_sort_def set_sort_loop)

lemma count_array_sort: "length (filter P (array_sort cmp xs)) = length (filter P xs)"
  by (simp add: array_sort_def count_sort_loop)

lemma filter_singleton_array_sort:
  assumes "filter P xs = [v]"
  shows "filter P (array_sort cmp xs) = [v]"
proof -
  have len: "length (filter P (array_sort cmp xs)) = 1"
    by (simp add: count_array_sort assms)
  have "set (filter P (array_sort cmp xs)) = set (filter P xs)"
    by (simp add: set_array_sort)
  then have st: "set (filter P (array_sort cmp xs)) = {v}" by (simp add: assms)
  from len obtain u where u: "filter P (array_sort cmp xs) = [u]"
    by (auto simp: length_Suc_conv)
  with st show ?thesis by simp
qed

lemma js_lt_text: "truthy a \<Longrightarrow> truthy b \<Longrightarrow> js_lt rt a b = (to_string a < to_string b)"
  by (cases a; cases b) simp_all

lemma descending_insert_by:
  assumes "truthy (date x)" and "\<forall>r\<in>set ys. truthy (date r)" and "descending ys"
  shows "descending (insert_by (by_date rt) x ys)"
  using assms(2,3)
proof (induction ys)
  case Nil
  show ?case by (simp add: descending_def)
next
  case (Cons y ys)
  from Cons.prems have y: "truthy (date y)" and ys: "\<forall>r\<in>set ys. truthy (date r)"
    and below: "\<forall>z\<in>set ys. to_string (date z) \<le> to_string (date y)" and d: "descending ys"
    by (simp_all add: descending_def)
  show ?case
  proof (cases "to_string (date x) < to_string (date y)")
    case True
    then have "insert_by (by_date rt) x (y # ys) = y # insert_by (by_date rt) x ys"
      using assms(1) y by (simp add: by_date_def js_lt_text)
    moreover have "descending (insert_by (by_date rt) x ys)" using ys d by (rule Cons.IH)
    ultimately show ?thesis using below True
      by (auto simp: descending_def set_insert_by)
  next
    case False
    then have "insert_by (by_date rt) x (y # ys) = x # y # ys"
      using assms(1) y by (simp add: by_date_def js_lt_text)
    moreover from False have yx: "to_string (date y) \<le> to_string (date x)" by simp
    moreover have "\<forall>z\<in>set ys. to_string (date z) \<le> to_string (date x)"
      using below yx by (blast intro: order_trans)
    ultimately show ?thesis using Cons.prems(2) by (simp add: descending_def)
  qed
qed

lemma descending_sort_loop:
  "\<forall>r\<in>set acc \<union> set xs. truthy (date r) \<Longrightarrow> descending acc \<Longrightarrow>
   descending (sort_loop (by_date rt) acc xs)"
proof (induction xs arbitrary: acc)
  case Nil
  then show ?case by simp
next
  case (Cons x xs)
  have "descending (insert_by (by_date rt) x acc)"
    using Cons.prems by (intro descending_insert_by) auto
  moreover have "\<forall>r\<in>set (insert_by (by_date rt) x acc) \<union> set xs. truthy (date r)"
    using Cons.prems(1) by (auto simp: set_insert_by)
  ultimately show ?case by (simp add: Cons.IH)
qed

lemma descending_array_sort:
  "\<forall>r\<in>set xs. truthy (date r) \<Longrightarrow> descending (array_sort (by_date rt) xs)"
  unfolding array_sort_def by (rule descending_sort_loop) (simp_all add: descending_def)

lemma descending_non_increasing: "descending xs \<Longrightarrow> non_increasing xs"
  by (induction xs rule: non_increasing.induct) (simp_all add: descending_def)

subsection \<open>The map\<close>

lemma keys_map_set:
  "map fst (map_set k v m) = (if k \<in> fst ` set m then map fst m else map fst m @ [k])"
proof (induction m)
  case Nil
  show ?case by simp
next
  case (Cons p m)
  obtain k' v' where p: "p = (k', v')" by (cases p)
  show ?case
  proof (cases "k' = k")
    case True
    then show ?thesis by (simp add: p)
  next
    case False
    with Cons.IH show ?thesis by (simp add: p)
  qed
qed

lemma distinct_map_set: "distinct (map fst m) \<Longrightarrow> distinct (map fst (map_set k v m))"
  by (simp add: keys_map_set)

lemma values_map_set: "set (map_set k v m) \<subseteq> insert (k, v) (set m)"
  by (induction m) (auto split: if_splits)

lemma map_of_map_set: "map_of (map_set k v m) = (map_of m)(k \<mapsto> v)"
  by (induction m) (auto split: if_splits)

lemma keyed_map_set: "keyed m \<Longrightarrow> keyed (map_set (key i) i m)"
  unfolding keyed_def using values_map_set [of "key i" i m]
  by (auto simp: distinct_map_set)

lemma keyed_v2_collect: "keyed m \<Longrightarrow> keyed (v2_collect m items)"
  by (induction items arbitrary: m) (simp_all add: keyed_map_set)

lemma values_v2_collect: "snd ` set (v2_collect m items) \<subseteq> snd ` set m \<union> set items"
proof (induction items arbitrary: m)
  case Nil
  show ?case by simp
next
  case (Cons i items)
  have "snd ` set (map_set (key i) i m) \<subseteq> insert i (snd ` set m)"
    using values_map_set [of "key i" i m] by auto
  with Cons.IH [of "map_set (key i) i m"] show ?case by auto
qed

lemma last_with_Cons:
  "last_with k (x # xs) =
     (case last_with k xs of Some v \<Rightarrow> Some v | None \<Rightarrow> if key x = k then Some x else None)"
  by (simp add: last_with_def Let_def)

lemma map_of_v2_collect:
  "map_of (v2_collect m items) k =
     (case last_with k items of Some v \<Rightarrow> Some v | None \<Rightarrow> map_of m k)"
proof (induction items arbitrary: m)
  case Nil
  show ?case by (simp add: last_with_def)
next
  case (Cons i items)
  show ?case
    by (simp add: Cons.IH map_of_map_set last_with_Cons split: option.splits)
qed

lemma keyed_filter:
  "keyed m \<Longrightarrow>
   filter (\<lambda>r. key r = k) (map snd m) = (case map_of m k of None \<Rightarrow> [] | Some v \<Rightarrow> [v])"
proof (induction m)
  case Nil
  show ?case by simp
next
  case (Cons p m)
  obtain k' v' where p: "p = (k', v')" by (cases p)
  from Cons.prems have km: "keyed m" and kv: "k' = key v'" and fresh: "k' \<notin> fst ` set m"
    by (auto simp: keyed_def p)
  show ?case
  proof (cases "k' = k")
    case True
    with fresh have "map_of m k = None" by (simp add: map_of_eq_None_iff)
    with Cons.IH [OF km] True kv show ?thesis by (simp add: p)
  next
    case False
    with Cons.IH [OF km] kv show ?thesis by (auto simp: p)
  qed
qed

lemma keyed_empty: "keyed []"
  by (simp add: keyed_def)

lemma v2_mergeAndSort_key:
  assumes "last_with k items = Some v"
  shows "filter (\<lambda>r. key r = k) (v2_mergeAndSort rt items) = [v]"
proof -
  have "filter (\<lambda>r. key r = k) (map snd (v2_collect [] items)) = [v]"
    using keyed_filter [OF keyed_v2_collect [OF keyed_empty], of k items]
    by (simp add: map_of_v2_collect assms)
  then show ?thesis
    unfolding v2_mergeAndSort_def map_values_def by (rule filter_singleton_array_sort)
qed

lemma tools_collect_filter: "tools_collect m items = v2_collect m (filter complete items)"
  by (induction items arbitrary: m) (simp_all add: complete_def)

lemma tools_mergeAndSort_filter:
  "tools_mergeAndSort rt items = v2_mergeAndSort rt (filter complete items)"
  by (simp add: tools_mergeAndSort_def v2_mergeAndSort_def tools_collect_filter)

lemma set_v2_mergeAndSort: "set (v2_mergeAndSort rt items) \<subseteq> set items"
  using values_v2_collect [of "[]" items]
  by (simp add: v2_mergeAndSort_def map_values_def set_array_sort)

lemma last_with_split:
  assumes "\<forall>y\<in>set post. key y \<noteq> key b"
  shows "last_with (key b) (pre @ b # post) = Some b"
proof -
  have "filter (\<lambda>x. key x = key b) post = []" using assms by (simp add: filter_empty_conv)
  then have "filter (\<lambda>x. key x = key b) (pre @ b # post) = filter (\<lambda>x. key x = key b) pre @ [b]"
    by simp
  then show ?thesis by (simp add: last_with_def Let_def)
qed

lemma tools_mergeAndSort_complete: "r \<in> set (tools_mergeAndSort rt items) \<Longrightarrow> complete r"
  using set_v2_mergeAndSort [of rt "filter complete items"]
  by (auto simp: tools_mergeAndSort_filter)

lemma v2_mergeAndSort_descending:
  assumes "\<forall>r\<in>set items. truthy (date r)"
  shows "descending (v2_mergeAndSort rt items)"
proof -
  have "set (map_values (v2_collect [] items)) \<subseteq> set items"
    using values_v2_collect [of "[]" items] by (simp add: map_values_def)
  with assms have "\<forall>r\<in>set (map_values (v2_collect [] items)). truthy (date r)" by blast
  then show ?thesis unfolding v2_mergeAndSort_def by (rule descending_array_sort)
qed


text \<open>
  C4. For every input of valid candidate records (title, link and date all present and
  non-empty) the sequence returned by \<open>mergeAndSort\<close>, in either version, does not
  increase by date from one element to the next, comparing the date strings
  lexicographically.
\<close>

theorem mergeAndSort_non_increasing:
  assumes "\<forall>r\<in>set items. complete r"
  shows "non_increasing (tools_mergeAndSort rt items) \<and> non_increasing (v2_mergeAndSort rt items)"
proof
  from assms have all: "filter complete items = items" by (simp add: filter_id_conv)
  from assms have dates: "\<forall>r\<in>set items. truthy (date r)" by (simp add: complete_def)
  then show "non_increasing (v2_mergeAndSort rt items)"
    by (intro descending_non_increasing v2_mergeAndSort_descending)
  then show "non_increasing (tools_mergeAndSort rt items)"
    by (simp add: tools_mergeAndSort_filter all)
qed

theorem mergeAndSort_non_increasing_witness:
  "complete annual \<and> complete current \<and> complete quarterly \<and>
   tools_mergeAndSort plain_runtime [annual, current, quarterly] = [current, annual, quarterly] \<and>
   non_increasing (tools_mergeAndSort plain_runtime [annual, current, quarterly]) \<and>
   non_increasing (v2_mergeAndSort plain_runtime [annual, current, quarterly])"
proof -
  have c: "\<forall>r\<in>set [annual, current, quarterly]. complete r"
    by (simp add: complete_def annual_def current_def quarterly_def)
  have "tools_mergeAndSort plain_runtime [annual, current, quarterly] = [current, annual, quarterly]"
    by (simp add: tools_mergeAndSort_def map_values_def array_sort_def by_date_def key_def
        annual_def current_def quarterly_def)
  with mergeAndSort_non_increasing [OF c, of plain_runtime] c show ?thesis by simp
qed

text \<open>
  C3, as the code has it. Let the input hold a candidate \<open>a\<close> and, later, a candidate
  \<open>b\<close> with the same title, link and date, where \<open>b\<close> is complete and no record
  after \<open>b\<close> has the key of \<open>b\<close>. Then the output of \<open>mergeAndSort\<close>, in either
  version, holds exactly one record with that key, and it is \<open>b\<close>, with all its fields.
\<close>

theorem mergeAndSort_later_wins:
  assumes "items = pre @ a # mid @ b # post"
    and "title a = title b" and "link a = link b" and "date a = date b"
    and "complete b" and "\<forall>y\<in>set post. key y \<noteq> key b"
  shows "filter (\<lambda>r. key r = key b) (tools_mergeAndSort rt items) = [b] \<and>
         filter (\<lambda>r. key r = key b) (v2_mergeAndSort rt items) = [b]"
proof
  have "last_with (key b) ((pre @ a # mid) @ b # post) = Some b"
    using assms(6) by (rule last_with_split)
  then show "filter (\<lambda>r. key r = key b) (v2_mergeAndSort rt items) = [b]"
    unfolding assms(1) by (intro v2_mergeAndSort_key) simp
  have "\<forall>y\<in>set (filter complete post). key y \<noteq> key b" using assms(6) by simp
  then have "last_with (key b) (filter complete (pre @ a # mid) @ b # filter complete post) = Some b"
    by (rule last_with_split)
  moreover have "filter complete items = filter complete (pre @ a # mid) @ b # filter complete post"
    using assms(5) by (simp add: assms(1))
  ultimately show "filter (\<lambda>r. key r = key b) (tools_mergeAndSort rt items) = [b]"
    unfolding tools_mergeAndSort_filter by (intro v2_mergeAndSort_key) simp
qed

theorem mergeAndSort_later_wins_witness:
  "title seen_by_sec = title annual \<and> link seen_by_sec = link annual \<and>
   date seen_by_sec = date annual \<and> description seen_by_sec \<noteq> description annual \<and>
   complete annual \<and>
   filter (\<lambda>r. key r = key annual)
     (tools_mergeAndSort plain_runtime [current, seen_by_sec, quarterly, annual]) = [annual] \<and>
   filter (\<lambda>r. key r = key annual)
     (v2_mergeAndSort plain_runtime [current, seen_by_sec, quarterly, annual]) = [annual]"
proof -
  have h: "title seen_by_sec = title annual" "link seen_by_sec = link annual"
    "date seen_by_sec = date annual" "complete annual"
    by (simp_all add: seen_by_sec_def annual_def complete_def)
  have "[current, seen_by_sec, quarterly, annual] = [current] @ seen_by_sec # [quarterly] @ annual # []"
    by simp
  from mergeAndSort_later_wins [OF this h(1-3) h(4), of plain_runtime] h
  show ?thesis by (simp add: seen_by_sec_def annual_def)
qed

text \<open>
  The claim as the spec words it, for every two candidates with the same title, link and
  date, fails in the first version when the two are incomplete: both are skipped and
  the output holds no record with their key.
\<close>

theorem mergeAndSort_incomplete_pair_counterexample:
  "title undated_sec = title undated_otc \<and> link undated_sec = link undated_otc \<and>
   date undated_sec = date undated_otc \<and>
   description undated_sec \<noteq> description undated_otc \<and>
   source undated_sec \<noteq> source undated_otc \<and>
   filter (\<lambda>r. key r = key undated_otc)
     (tools_mergeAndSort plain_runtime [undated_sec, undated_otc]) = []"
  by (simp add: undated_sec_def undated_otc_def tools_mergeAndSort_def map_values_def
      array_sort_def)

text \<open>
  C9. The key joins title, link and date with \<open>|\<close>, so a \<open>|\<close> inside a title or a
  link makes records with different titles and links share a key: the title \<open>a|b\<close> with
  the link \<open>c\<close>, and the title \<open>a\<close> with the link \<open>b|c\<close>, on the same date. Of the
  two, \<open>mergeAndSort\<close> keeps the later one only, in either version and in either order.
\<close>

theorem key_collision:
  "(title bar_in_title, link bar_in_title, date bar_in_title)
     \<noteq> (title bar_in_link, link bar_in_link, date bar_in_link) \<and>
   key bar_in_title = key bar_in_link \<and>
   tools_mergeAndSort rt [bar_in_title, bar_in_link] = [bar_in_link] \<and>
   v2_mergeAndSort rt [bar_in_title, bar_in_link] = [bar_in_link] \<and>
   tools_mergeAndSort rt [bar_in_link, bar_in_title] = [bar_in_title] \<and>
   v2_mergeAndSort rt [bar_in_link, bar_in_title] = [bar_in_title]"
  by (simp add: bar_in_title_def bar_in_link_def key_def tools_mergeAndSort_def
      v2_mergeAndSort_def map_values_def array_sort_def)

end
